theory Spec2Isabelle
  imports Main
begin

section \<open>Errors and the remote service\<close>

text \<open>
  A thrown JavaScript error is a value carrying its \<open>message\<close>. The remote model
  (\<open>currentAi.models.generateContent\<close>) is a black box: the client is the sequence of
  outcomes of its successive invocations, the \<open>k\<close>-th one either throwing an error or
  returning the response text.
\<close>

datatype error = Error (message: string)

type_synonym client = "nat \<Rightarrow> error + string"

record ai_state =
  ai :: "client option"
  aiInitializationError :: "error option"

definition getAi :: "ai_state \<Rightarrow> error + client" where
  "getAi st =
     (case aiInitializationError st of
        Some e \<Rightarrow> Inl (Error (''Failed to initialize AI service: '' @ message e))
      | None \<Rightarrow>
          (case ai st of
             None \<Rightarrow> Inl (Error ''AI service is not initialized. Please ensure the API_KEY environment variable is set.'')
           | Some c \<Rightarrow> Inr c))"

text \<open>The outcome of a service function together with what it did on the way: how often
  the remote operation was invoked and which delays (in milliseconds) it waited.\<close>

record 'a run =
  result :: 'a
  calls :: nat
  delays :: "int list"

section \<open>Strings\<close>

text \<open>
  Strings are lists of 8-bit characters. \<open>is_space\<close> is the white space of
  \<open>String.prototype.trim\<close> and of the regular expression class \<open>\s\<close> (tab, line feed,
  vertical tab, form feed, carriage return, space, no-break space); \<open>is_word\<close> is the
  class \<open>\w\<close>.
\<close>

definition is_space :: "char \<Rightarrow> bool" where
  "is_space c = (c \<in> set [CHR 0x09, CHR 0x0A, CHR 0x0B, CHR 0x0C, CHR 0x0D, CHR 0x20, CHR 0xA0])"

definition is_word :: "char \<Rightarrow> bool" where
  "is_word c = (c \<in> set (''abcdefghijklmnopqrstuvwxyz'' @ ''ABCDEFGHIJKLMNOPQRSTUVWXYZ'' @ ''0123456789_''))"

definition rstrip :: "string \<Rightarrow> string" where
  "rstrip s = rev (dropWhile is_space (rev s))"

definition trim :: "string \<Rightarrow> string" where
  "trim s = rstrip (dropWhile is_space s)"

text \<open>\<open>s.indexOf(c)\<close> and \<open>s.lastIndexOf(c)\<close> for a single character: the position of
  the first (last) occurrence, or \<open>-1\<close>.\<close>

fun indexOf :: "char \<Rightarrow> string \<Rightarrow> int" where
  "indexOf c [] = -1"
| "indexOf c (x # xs) =
     (if x = c then 0 else (let i = indexOf c xs in if i = -1 then -1 else i + 1))"

definition lastIndexOf :: "char \<Rightarrow> string \<Rightarrow> int" where
  "lastIndexOf c s =
     (let i = indexOf c (rev s) in if i = -1 then -1 else int (length s) - 1 - i)"

text \<open>\<open>s.substring(a, b)\<close>: both indices are clamped to \<open>0 .. length\<close> and swapped when
  the first exceeds the second.\<close>

definition substring :: "int \<Rightarrow> int \<Rightarrow> string \<Rightarrow> string" where
  "substring a b s =
     (let n = int (length s);
          a' = max 0 (min a n);
          b' = max 0 (min b n);
          lo = min a' b';
          hi = max a' b'
      in take (nat (hi - lo)) (drop (nat lo) s))"

text \<open>\<open>s.includes(sub)\<close> and \<open>s.endsWith(suf)\<close>.\<close>

fun includes_str :: "string \<Rightarrow> string \<Rightarrow> bool" where
  "includes_str [] sub = (sub = [])"
| "includes_str (c # cs) sub = (take (length sub) (c # cs) = sub \<or> includes_str cs sub)"

definition endsWith :: "string \<Rightarrow> string \<Rightarrow> bool" where
  "endsWith s suf = (length suf \<le> length s \<and> drop (length s - length suf) s = suf)"

section \<open>parseJsonResponse\<close>

text \<open>
  The match of \<open>/^```(\w*)?\s*\n?(.*?)\n?\s*```$/s\<close> against the whole string, giving
  capture group 2. The expression is anchored at both ends, so it matches exactly the
  strings \<open>``` mid ```\<close> (two disjoint fences). The greedy \<open>\w*\<close> and \<open>\s*\<close> take the
  longest run of word characters and then of white space of \<open>mid\<close>; the optional line
  feed has nothing left to take; the lazy group then grows until what follows it is
  white space only, which is the rest without its trailing white space.
\<close>

definition fenceMatch :: "string \<Rightarrow> string option" where
  "fenceMatch s =
     (if 6 \<le> length s \<and> take 3 s = ''```'' \<and> drop (length s - 3) s = ''```''
      then Some (rstrip (dropWhile is_space (dropWhile is_word (take (length s - 6) (drop 3 s)))))
      else None)"

text \<open>\<open>s.replace(/,\s*([}\]])/g, '$1')\<close>: scanning from the left, a comma followed by
  white space and a closing brace or bracket is replaced by that closing character, and
  the scan goes on behind it.\<close>

function cleanTrailingCommas :: "string \<Rightarrow> string" where
  "cleanTrailingCommas [] = []"
| "cleanTrailingCommas (c # cs) =
     (if c = CHR '','' then
        (case dropWhile is_space cs of
           [] \<Rightarrow> c # cleanTrailingCommas cs
         | d # ds \<Rightarrow>
             if d = CHR ''}'' \<or> d = CHR '']'' then d # cleanTrailingCommas ds
             else c # cleanTrailingCommas cs)
      else c # cleanTrailingCommas cs)"
  by pat_completeness auto
termination
proof (relation "measure length")
  show "wf (measure length)" by simp
next
  fix c :: char and cs d ds
  assume "dropWhile is_space cs = d # ds"
  then have "length (d # ds) \<le> length cs"
    using length_dropWhile_le [of is_space cs] by simp
  then show "(ds, c # cs) \<in> measure length" by simp
qed auto

text \<open>The first step of \<open>parseJsonResponse\<close> after trimming: when the fence expression
  matches and its group 2 is not empty, the string becomes that group, trimmed.\<close>

definition unwrapFence :: "string \<Rightarrow> string" where
  "unwrapFence jsonStr =
     (case fenceMatch jsonStr of
        Some g \<Rightarrow> if g \<noteq> [] then trim g else jsonStr
      | None \<Rightarrow> jsonStr)"

text \<open>
  \<open>parseJsonResponse\<close>. \<open>JSON.parse\<close> is the parameter \<open>dec\<close>; it throws on text that
  is not JSON (\<open>Inl\<close>). The result is \<open>Inl\<close> for a thrown error, \<open>Inr None\<close> for
  \<open>null\<close> and \<open>Inr (Some v)\<close> for a decoded value. The first guard \<open>!text\<close> is the
  test for the empty string.
\<close>

definition parseJsonResponse :: "(string \<Rightarrow> error + 'a) \<Rightarrow> string \<Rightarrow> error + 'a option" where
  "parseJsonResponse dec text =
     (if text = [] then Inr None
      else
        let jsonStr = unwrapFence (trim text);
            firstBracket = indexOf (CHR ''['') jsonStr;
            firstBrace = indexOf (CHR ''{'') jsonStr;
            start = (if firstBracket = -1 then firstBrace
                     else if firstBrace = -1 then firstBracket
                     else min firstBracket firstBrace)
        in if start = -1 then Inr None
           else
             let lastBracket = lastIndexOf (CHR '']'') jsonStr;
                 lastBrace = lastIndexOf (CHR ''}'') jsonStr;
                 end = max lastBracket lastBrace
             in if end = -1 then Inr None
                else
                  let jsonStr = substring start (end + 1) jsonStr
                  in (case dec (cleanTrailingCommas jsonStr) of
                        Inr v \<Rightarrow> Inr (Some v)
                      | Inl e \<Rightarrow> Inr None))"

section \<open>callApiWithRetry\<close>

text \<open>
  The wrapped operation \<open>apiCall\<close> is given by the outcomes of its successive
  invocations. The three ways \<open>callApiWithRetry\<close> can end are kept apart: the value of
  a successful invocation, an error of the operation thrown again, and the error made
  up behind the loop.
\<close>

datatype 'a retry_outcome = Returned 'a | Rethrown error | Exhausted

function callApiWithRetry_loop ::
  "(nat \<Rightarrow> error + 'a) \<Rightarrow> int \<Rightarrow> int \<Rightarrow> nat \<Rightarrow> int list \<Rightarrow> 'a retry_outcome run" where
  "callApiWithRetry_loop apiCall maxRetries attempt n ds =
     (if attempt < maxRetries then
        (case apiCall n of
           Inr v \<Rightarrow> \<lparr>result = Returned v, calls = Suc n, delays = ds\<rparr>
         | Inl e \<Rightarrow>
             if includes_str (message e) ''500 INTERNAL'' \<and> attempt + 1 < maxRetries
             then callApiWithRetry_loop apiCall maxRetries (attempt + 1) (Suc n)
                    (ds @ [1000 * (attempt + 1)])
             else \<lparr>result = Rethrown e, calls = Suc n, delays = ds\<rparr>)
      else \<lparr>result = Exhausted, calls = n, delays = ds\<rparr>)"
  by pat_completeness auto
termination
  by (relation "measure (\<lambda>(apiCall, maxRetries, attempt, n, ds). nat (maxRetries - attempt))") auto

definition callApiWithRetry :: "(nat \<Rightarrow> error + 'a) \<Rightarrow> int \<Rightarrow> 'a retry_outcome run" where
  "callApiWithRetry apiCall maxRetries = callApiWithRetry_loop apiCall maxRetries 0 0 []"

text \<open>What the caller of \<open>callApiWithRetry\<close> sees: a value or a thrown error.\<close>

fun outcome_value :: "'a retry_outcome \<Rightarrow> error + 'a" where
  "outcome_value (Returned v) = Inr v"
| "outcome_value (Rethrown e) = Inl e"
| "outcome_value Exhausted = Inl (Error ''API call failed after maximum retries.'')"

section \<open>analyzeDocumentStructure\<close>

text \<open>
  Page numbers are integers. A decoded chapter carries whatever \<open>id\<close> the model sent;
  \<open>{...c, id: generateUniqueId()}\<close> overwrites it. \<open>generateUniqueId\<close> is the parameter
  \<open>genId\<close>, giving the identifier made for the \<open>k\<close>-th element.
\<close>

record PageText =
  pageNumber :: int
  ptext :: string

record Chapter =
  chapterId :: string
  title :: string
  startPage :: int
  endPage :: int

text \<open>The loop \<open>for (i = 0; i < rawChapters.length - 1; i++)\<close> that cuts the end of a
  chapter back to the page before the start of the next one.\<close>

function clampLoop :: "nat \<Rightarrow> Chapter list \<Rightarrow> Chapter list" where
  "clampLoop i rawChapters =
     (if int i < int (length rawChapters) - 1 then
        clampLoop (i + 1)
          (if endPage (rawChapters ! i) \<ge> startPage (rawChapters ! (i + 1))
           then rawChapters[i := (rawChapters ! i)\<lparr>endPage := startPage (rawChapters ! (i + 1)) - 1\<rparr>]
           else rawChapters)
      else rawChapters)"
  by pat_completeness auto
termination
  by (relation "measure (\<lambda>(i, rawChapters). length rawChapters - i)") auto

text \<open>The branch of \<open>apiCall\<close> for a non-empty decoded array: the loop, the forced end
  of the last chapter and the identifiers (\<open>chaptersWithIds\<close>), then the final filter.\<close>

definition chaptersWithIds :: "(nat \<Rightarrow> string) \<Rightarrow> int \<Rightarrow> Chapter list \<Rightarrow> Chapter list" where
  "chaptersWithIds genId totalPages rawChapters =
     (let cs = clampLoop 0 rawChapters;
          cs = cs[length cs - 1 := (cs ! (length cs - 1))\<lparr>endPage := totalPages\<rparr>]
      in map (\<lambda>(k, c). c\<lparr>chapterId := genId k\<rparr>) (enumerate 0 cs))"

definition reconcileChapters :: "(nat \<Rightarrow> string) \<Rightarrow> int \<Rightarrow> Chapter list \<Rightarrow> Chapter list" where
  "reconcileChapters genId totalPages rawChapters =
     filter (\<lambda>c. startPage c \<le> totalPages \<and> startPage c > 0 \<and> endPage c \<ge> startPage c)
       (chaptersWithIds genId totalPages rawChapters)"

definition fullDocument :: "(nat \<Rightarrow> string) \<Rightarrow> int \<Rightarrow> Chapter list" where
  "fullDocument genId totalPages =
     [\<lparr>chapterId = genId 0, title = ''Full Document'', startPage = 1, endPage = totalPages\<rparr>]"

definition structureApiCall ::
  "client \<Rightarrow> (string \<Rightarrow> error + Chapter list) \<Rightarrow> (nat \<Rightarrow> string) \<Rightarrow> int \<Rightarrow> nat \<Rightarrow> error + Chapter list" where
  "structureApiCall currentAi dec genId totalPages k =
     (case currentAi k of
        Inl e \<Rightarrow> Inl e
      | Inr response \<Rightarrow>
          (case parseJsonResponse dec response of
             Inl e \<Rightarrow> Inl e
           | Inr None \<Rightarrow> Inr (fullDocument genId totalPages)
           | Inr (Some rawChapters) \<Rightarrow>
               if length rawChapters > 0 then Inr (reconcileChapters genId totalPages rawChapters)
               else Inr (fullDocument genId totalPages)))"

text \<open>The result is \<open>Inl\<close> for a thrown error (only \<open>getAi\<close> can throw here), \<open>Inr None\<close>
  for \<open>null\<close> and \<open>Inr (Some chapters)\<close> for an array.\<close>

definition analyzeDocumentStructure ::
  "ai_state \<Rightarrow> (string \<Rightarrow> error + Chapter list) \<Rightarrow> (nat \<Rightarrow> string) \<Rightarrow> PageText list
     \<Rightarrow> error + Chapter list option" where
  "analyzeDocumentStructure st dec genId pages =
     (case getAi st of
        Inl e \<Rightarrow> Inl e
      | Inr currentAi \<Rightarrow>
          (let totalPages = int (length pages)
           in case outcome_value (result (callApiWithRetry (structureApiCall currentAi dec genId totalPages) 3)) of
                Inr chapters \<Rightarrow> Inr (Some chapters)
              | Inl e \<Rightarrow> Inr (Some (fullDocument genId totalPages))))"

section \<open>Interactive blocks\<close>

text \<open>
  A decoded block is a JavaScript object: one record with the \<open>type\<close> tag as a string
  (so that any tag the model sends can be written) and the fields of all six variants.
  As for chapters, \<open>{...block, id: generateUniqueId()}\<close> overwrites the \<open>id\<close>.
\<close>

record InteractiveBlock =
  blockId :: string
  type_tag :: string
  explanation_text :: string
  latex :: string
  question :: string
  options :: "string list"
  correctAnswerIndex :: int
  correctAnswer :: bool
  questionParts :: "string list"
  correctAnswers :: "string list"

definition knownTypes :: "string list" where
  "knownTypes = [''explanation'', ''math_formula'', ''multiple_choice_question'',
     ''true_false_question'', ''fill_in_the_blank_question'', ''open_ended_question'']"

definition assignIdsToBlocks :: "(nat \<Rightarrow> string) \<Rightarrow> InteractiveBlock list \<Rightarrow> InteractiveBlock list" where
  "assignIdsToBlocks genId content = map (\<lambda>(k, block). block\<lparr>blockId := genId k\<rparr>) (enumerate 0 content)"

subsection \<open>generateInteractiveLesson\<close>

record RawContent =
  raw_title :: string
  raw_content :: "InteractiveBlock list option"

record InteractiveContent =
  contentId :: string
  lessonTitle :: string
  content :: "InteractiveBlock list"

definition lessonApiCall ::
  "client \<Rightarrow> (string \<Rightarrow> error + RawContent) \<Rightarrow> (nat \<Rightarrow> string) \<Rightarrow> nat
     \<Rightarrow> error + InteractiveContent option" where
  "lessonApiCall currentAi dec genId k =
     (case currentAi k of
        Inl e \<Rightarrow> Inl e
      | Inr response \<Rightarrow>
          (case parseJsonResponse dec response of
             Inl e \<Rightarrow> Inl e
           | Inr None \<Rightarrow> Inr None
           | Inr (Some initialContent) \<Rightarrow>
               (case raw_content initialContent of
                  None \<Rightarrow> Inr None
                | Some blocks \<Rightarrow>
                    Inr (Some \<lparr>contentId = genId (length blocks),
                               lessonTitle = raw_title initialContent,
                               content = assignIdsToBlocks genId blocks\<rparr>))))"

definition generateInteractiveLesson ::
  "ai_state \<Rightarrow> (string \<Rightarrow> error + RawContent) \<Rightarrow> (nat \<Rightarrow> string) \<Rightarrow> error + InteractiveContent option" where
  "generateInteractiveLesson st dec genId =
     (case getAi st of
        Inl e \<Rightarrow> Inl e
      | Inr currentAi \<Rightarrow>
          (case outcome_value (result (callApiWithRetry (lessonApiCall currentAi dec genId) 3)) of
             Inr r \<Rightarrow> Inr r
           | Inl e \<Rightarrow> Inr None))"

subsection \<open>generateInitialQuestions\<close>

text \<open>The loop \<open>for (attempt = 0; attempt < 3; attempt++)\<close>. Whatever is thrown in its
  \<open>try\<close> block is caught and the loop goes on; \<open>n\<close> counts the requests made and \<open>ds\<close>
  collects the delays.\<close>

function initialQuestions_loop ::
  "client \<Rightarrow> (string \<Rightarrow> error + InteractiveBlock list) \<Rightarrow> (nat \<Rightarrow> string) \<Rightarrow> int \<Rightarrow> nat \<Rightarrow> int list
     \<Rightarrow> InteractiveBlock list option run" where
  "initialQuestions_loop currentAi dec genId attempt n ds =
     (if attempt < 3 then
        (case (case currentAi n of
                 Inl e \<Rightarrow> None
               | Inr response \<Rightarrow>
                   (case parseJsonResponse dec response of
                      Inl e \<Rightarrow> None
                    | Inr None \<Rightarrow> None
                    | Inr (Some rawBlocks) \<Rightarrow> Some (assignIdsToBlocks genId rawBlocks))) of
           Some blocks \<Rightarrow> \<lparr>result = Some blocks, calls = Suc n, delays = ds\<rparr>
         | None \<Rightarrow>
             initialQuestions_loop currentAi dec genId (attempt + 1) (Suc n)
               (if attempt < 2 then ds @ [500 * (attempt + 1)] else ds))
      else \<lparr>result = None, calls = n, delays = ds\<rparr>)"
  by pat_completeness auto
termination
  by (relation "measure (\<lambda>(currentAi, dec, genId, attempt, n, ds). nat (3 - attempt))") auto

definition generateInitialQuestions ::
  "ai_state \<Rightarrow> (string \<Rightarrow> error + InteractiveBlock list) \<Rightarrow> (nat \<Rightarrow> string)
     \<Rightarrow> error + InteractiveBlock list option run" where
  "generateInitialQuestions st dec genId =
     (case getAi st of
        Inl e \<Rightarrow> Inl e
      | Inr currentAi \<Rightarrow> Inr (initialQuestions_loop currentAi dec genId 0 0 []))"

subsection \<open>getFeedbackOnAnswers\<close>

datatype answer = ANumber int | ABoolean bool | AString string | AStrings "string list"

record UserAnswer =
  ua_questionId :: string
  ua_answer :: answer

record QaPair =
  qa_questionId :: string
  qa_question :: string
  qa_userAnswer :: string
  qa_correctAnswer :: "string option"

record RawFeedback =
  rf_questionId :: string
  rf_isCorrect :: bool
  rf_explanation :: string

record FeedbackItem =
  fb_questionId :: string
  fb_isCorrect :: bool
  fb_explanation :: string
  fb_question :: "string option"
  fb_userAnswer :: "string option"

text \<open>\<open>xs.join(sep)\<close>, \<open>xs[i]\<close> (\<open>undefined\<close> out of range), \<open>String(n)\<close> for an integer,
  \<open>String(answer)\<close> and the truth value of an answer.\<close>

fun join_str :: "string \<Rightarrow> string list \<Rightarrow> string" where
  "join_str sep [] = []"
| "join_str sep [x] = x"
| "join_str sep (x # y # ys) = x @ sep @ join_str sep (y # ys)"

definition at_index :: "'a list \<Rightarrow> int \<Rightarrow> 'a option" where
  "at_index xs i = (if 0 \<le> i \<and> i < int (length xs) then Some (xs ! nat i) else None)"

fun digits_of :: "nat \<Rightarrow> string" where
  "digits_of n =
     (if n < 10 then [char_of (48 + n)] else digits_of (n div 10) @ [char_of (48 + n mod 10)])"

definition string_of_int :: "int \<Rightarrow> string" where
  "string_of_int i = (if i < 0 then CHR ''-'' # digits_of (nat (- i)) else digits_of (nat i))"

fun string_of_answer :: "answer \<Rightarrow> string" where
  "string_of_answer (ANumber n) = string_of_int n"
| "string_of_answer (ABoolean b) = (if b then ''true'' else ''false'')"
| "string_of_answer (AString s) = s"
| "string_of_answer (AStrings xs) = join_str '','' xs"

fun truthy :: "answer \<Rightarrow> bool" where
  "truthy (ANumber n) = (n \<noteq> 0)"
| "truthy (ABoolean b) = b"
| "truthy (AString s) = (s \<noteq> [])"
| "truthy (AStrings xs) = True"

text \<open>The body of \<open>userAnswers.map(ua => ...)\<close>: \<open>None\<close> is the \<open>null\<close> that
  \<open>.filter(Boolean)\<close> removes. The three texts are \<open>None\<close> while \<open>undefined\<close>.\<close>

definition qaPair :: "InteractiveBlock list \<Rightarrow> UserAnswer \<Rightarrow> QaPair option" where
  "qaPair allQuestions ua =
     (case find (\<lambda>q. blockId q = ua_questionId ua) allQuestions of
        None \<Rightarrow> None
      | Some questionBlock \<Rightarrow>
          if \<not> endsWith (type_tag questionBlock) ''_question'' then None
          else
            let (questionText, userAnswerText, correctAnswerText) =
              (if type_tag questionBlock = ''multiple_choice_question'' then
                 (Some (question questionBlock),
                  (case ua_answer ua of
                     ANumber i \<Rightarrow> at_index (options questionBlock) i
                   | _ \<Rightarrow> Some ''N/A''),
                  at_index (options questionBlock) (correctAnswerIndex questionBlock))
               else if type_tag questionBlock = ''open_ended_question'' then
                 (Some (question questionBlock),
                  Some (string_of_answer (ua_answer ua)),
                  Some ''This is an open-ended question. Evaluate the answer's logic and relevance to the question.'')
               else if type_tag questionBlock = ''true_false_question'' then
                 (Some (question questionBlock),
                  Some (if truthy (ua_answer ua) then ''True'' else ''False''),
                  Some (if correctAnswer questionBlock then ''True'' else ''False''))
               else if type_tag questionBlock = ''fill_in_the_blank_question'' then
                 (Some (join_str '' [blank] '' (questionParts questionBlock)),
                  (case ua_answer ua of
                     AStrings xs \<Rightarrow> Some (join_str '', '' (map (\<lambda>a. if a = [] then ''empty'' else a) xs))
                   | _ \<Rightarrow> Some ''N/A''),
                  Some (join_str '', '' (correctAnswers questionBlock)))
               else (None, None, None))
            in (case (questionText, userAnswerText) of
                  (Some qt, Some uat) \<Rightarrow>
                    if qt \<noteq> [] then
                      Some \<lparr>qa_questionId = ua_questionId ua, qa_question = qt,
                            qa_userAnswer = uat, qa_correctAnswer = correctAnswerText\<rparr>
                    else None
                | _ \<Rightarrow> None))"

definition qaPairsForAI :: "InteractiveBlock list \<Rightarrow> UserAnswer list \<Rightarrow> QaPair list" where
  "qaPairsForAI allQuestions userAnswers = List.map_filter (qaPair allQuestions) userAnswers"

definition augmentFeedback :: "QaPair list \<Rightarrow> RawFeedback \<Rightarrow> FeedbackItem" where
  "augmentFeedback pairs fb =
     (let originalPair = find (\<lambda>p. qa_questionId p = rf_questionId fb) pairs
      in \<lparr>fb_questionId = rf_questionId fb, fb_isCorrect = rf_isCorrect fb,
          fb_explanation = rf_explanation fb,
          fb_question = map_option qa_question originalPair,
          fb_userAnswer = map_option qa_userAnswer originalPair\<rparr>)"

definition feedbackApiCall ::
  "client \<Rightarrow> (string \<Rightarrow> error + RawFeedback list) \<Rightarrow> QaPair list \<Rightarrow> nat \<Rightarrow> error + FeedbackItem list option" where
  "feedbackApiCall currentAi dec pairs k =
     (case currentAi k of
        Inl e \<Rightarrow> Inl e
      | Inr response \<Rightarrow>
          (case parseJsonResponse dec response of
             Inl e \<Rightarrow> Inl e
           | Inr None \<Rightarrow> Inr None
           | Inr (Some feedbackFromAI) \<Rightarrow> Inr (Some (map (augmentFeedback pairs) feedbackFromAI))))"

definition getFeedbackOnAnswers ::
  "ai_state \<Rightarrow> (string \<Rightarrow> error + RawFeedback list) \<Rightarrow> UserAnswer list \<Rightarrow> InteractiveBlock list
     \<Rightarrow> error + FeedbackItem list option run" where
  "getFeedbackOnAnswers st dec userAnswers allQuestions =
     (case getAi st of
        Inl e \<Rightarrow> Inl e
      | Inr currentAi \<Rightarrow>
          (let pairs = qaPairsForAI allQuestions userAnswers
           in if length pairs = 0 then Inr \<lparr>result = Some [], calls = 0, delays = []\<rparr>
              else
                (let r = callApiWithRetry (feedbackApiCall currentAi dec pairs) 3
                 in case outcome_value (result r) of
                      Inr v \<Rightarrow> Inr \<lparr>result = v, calls = calls r, delays = delays r\<rparr>
                    | Inl e \<Rightarrow> Inr \<lparr>result = None, calls = calls r, delays = delays r\<rparr>)))"

section \<open>JSON values\<close>

text \<open>
  The built-in \<open>JSON.stringify\<close> and \<open>JSON.parse\<close> on a concrete type of JSON values,
  for running \<open>parseJsonResponse\<close> on serialised values. Numbers are integers and
  characters are 8-bit; an object is the list of its members in order. \<open>stringify\<close>
  is the compact serialisation of \<open>JSON.stringify(v)\<close>. \<open>JSON_parse\<close> is a recursive
  descent over the text whose recursion depth is bounded by the length of the text.
\<close>

datatype json = JNull | JBool bool | JNum int | JStr string | JArr "json list" | JObj "(string \<times> json) list"





definition json_space :: "char \<Rightarrow> bool" where
  "json_space c = (c \<in> set [CHR 0x20, CHR 0x09, CHR 0x0A, CHR 0x0D])"

definition is_digit :: "char \<Rightarrow> bool" where
  "is_digit c = (48 \<le> (of_char c :: nat) \<and> (of_char c :: nat) \<le> 57)"

definition hex_value :: "char \<Rightarrow> nat option" where
  "hex_value c =
     (let n = (of_char c :: nat)
      in if 48 \<le> n \<and> n \<le> 57 then Some (n - 48)
         else if 97 \<le> n \<and> n \<le> 102 then Some (n - 87)
         else if 65 \<le> n \<and> n \<le> 70 then Some (n - 55)
         else None)"

definition unescape_char :: "char \<Rightarrow> char option" where
  "unescape_char c =
     (if c = CHR 0x22 \<or> c = CHR 0x5C \<or> c = CHR ''/'' then Some c
      else if c = CHR ''b'' then Some (CHR 0x08)
      else if c = CHR ''t'' then Some (CHR 0x09)
      else if c = CHR ''n'' then Some (CHR 0x0A)
      else if c = CHR ''f'' then Some (CHR 0x0C)
      else if c = CHR ''r'' then Some (CHR 0x0D)
      else None)"

fun parse_string_body :: "string \<Rightarrow> (string \<times> string) option" where
  "parse_string_body [] = None"
| "parse_string_body (c # cs) =
     (if c = CHR 0x22 then Some ([], cs)
      else if c = CHR 0x5C then
        (case cs of
           [] \<Rightarrow> None
         | d # ds \<Rightarrow>
             if d = CHR ''u'' then
               (case ds of
                  h1 # h2 # h3 # h4 # r \<Rightarrow>
                    (case (hex_value h1, hex_value h2, hex_value h3, hex_value h4) of
                       (Some a, Some b, Some x, Some y) \<Rightarrow>
                         if ((a * 16 + b) * 16 + x) * 16 + y < 256
                         then map_option (\<lambda>(s, r'). (char_of (x * 16 + y) # s, r')) (parse_string_body r)
                         else None
                     | _ \<Rightarrow> None)
                | _ \<Rightarrow> None)
             else
               (case unescape_char d of
                  None \<Rightarrow> None
                | Some e \<Rightarrow> map_option (\<lambda>(s, r). (e # s, r)) (parse_string_body ds)))
      else if (of_char c :: nat) < 32 then None
      else map_option (\<lambda>(s, r). (c # s, r)) (parse_string_body cs))"

definition parse_number :: "string \<Rightarrow> (json \<times> string) option" where
  "parse_number s =
     (let neg = (s \<noteq> [] \<and> hd s = CHR ''-'');
          s1 = (if neg then tl s else s);
          ds = takeWhile is_digit s1;
          r = dropWhile is_digit s1;
          n = int (foldl (\<lambda>a c. 10 * a + (of_char c - 48)) 0 ds)
      in if ds = [] \<or> (length ds > 1 \<and> hd ds = CHR ''0'') then None
         else if r \<noteq> [] \<and> hd r \<in> set ''.eE'' then None
         else Some (JNum (if neg then - n else n), r))"

fun parse_value :: "nat \<Rightarrow> string \<Rightarrow> (json \<times> string) option"
  and parse_elements :: "nat \<Rightarrow> string \<Rightarrow> (json list \<times> string) option"
  and parse_members :: "nat \<Rightarrow> string \<Rightarrow> ((string \<times> json) list \<times> string) option" where
  "parse_value 0 s = None"
| "parse_value (Suc fuel) s =
     (case dropWhile json_space s of
        [] \<Rightarrow> None
      | c # cs \<Rightarrow>
          if c = CHR ''['' then
            (case dropWhile json_space cs of
               [] \<Rightarrow> None
             | d # ds \<Rightarrow>
                 if d = CHR '']'' then Some (JArr [], ds)
                 else map_option (\<lambda>(vs, r). (JArr vs, r)) (parse_elements fuel cs))
          else if c = CHR ''{'' then
            (case dropWhile json_space cs of
               [] \<Rightarrow> None
             | d # ds \<Rightarrow>
                 if d = CHR ''}'' then Some (JObj [], ds)
                 else map_option (\<lambda>(ms, r). (JObj ms, r)) (parse_members fuel cs))
          else if c = CHR 0x22 then map_option (\<lambda>(t, r). (JStr t, r)) (parse_string_body cs)
          else if take 4 (c # cs) = ''null'' then Some (JNull, drop 4 (c # cs))
          else if take 4 (c # cs) = ''true'' then Some (JBool True, drop 4 (c # cs))
          else if take 5 (c # cs) = ''false'' then Some (JBool False, drop 5 (c # cs))
          else parse_number (c # cs))"
| "parse_elements 0 s = None"
| "parse_elements (Suc fuel) s =
     (case parse_value fuel s of
        None \<Rightarrow> None
      | Some (v, r) \<Rightarrow>
          (case dropWhile json_space r of
             [] \<Rightarrow> None
           | c # cs \<Rightarrow>
               if c = CHR '','' then map_option (\<lambda>(vs, r'). (v # vs, r')) (parse_elements fuel cs)
               else if c = CHR '']'' then Some ([v], cs)
               else None))"
| "parse_members 0 s = None"
| "parse_members (Suc fuel) s =
     (case dropWhile json_space s of
        [] \<Rightarrow> None
      | q # qs \<Rightarrow>
          if q \<noteq> CHR 0x22 then None
          else
            (case parse_string_body qs of
               None \<Rightarrow> None
             | Some (k, r) \<Rightarrow>
                 (case dropWhile json_space r of
                    [] \<Rightarrow> None
                  | c # cs \<Rightarrow>
                      if c \<noteq> CHR '':'' then None
                      else
                        (case parse_value fuel cs of
                           None \<Rightarrow> None
                         | Some (v, r') \<Rightarrow>
                             (case dropWhile json_space r' of
                                [] \<Rightarrow> None
                              | e # es \<Rightarrow>
                                  if e = CHR '','' then
                                    map_option (\<lambda>(ms, r''). ((k, v) # ms, r'')) (parse_members fuel es)
                                  else if e = CHR ''}'' then Some ([(k, v)], es)
                                  else None)))))"

definition JSON_parse :: "string \<Rightarrow> error + json" where
  "JSON_parse s =
     (case parse_value (Suc (length s)) s of
        None \<Rightarrow> Inl (Error ''SyntaxError'')
      | Some (v, r) \<Rightarrow>
          if dropWhile json_space r = [] then Inr v else Inl (Error ''SyntaxError''))"

section \<open>Inputs for the examples\<close>

text \<open>A service whose every request returns the same response text, a decoder that
  knows one JSON text, an identifier supply and a document of ten pages.\<close>

definition serviceReturning :: "string \<Rightarrow> ai_state" where
  "serviceReturning response = \<lparr>ai = Some (\<lambda>k. Inr response), aiInitializationError = None\<rparr>"

definition decodingAs :: "string \<Rightarrow> 'a \<Rightarrow> string \<Rightarrow> error + 'a" where
  "decodingAs json v s = (if s = json then Inr v else Inl (Error ''SyntaxError''))"

definition numberedId :: "nat \<Rightarrow> string" where
  "numberedId k = ''id-'' @ digits_of k"

definition tenPages :: "PageText list" where
  "tenPages = map (\<lambda>n. \<lparr>pageNumber = int n, ptext = ''page text''\<rparr>) [1..<11]"

definition rawChapter :: "string \<Rightarrow> int \<Rightarrow> int \<Rightarrow> Chapter" where
  "rawChapter t s e = \<lparr>chapterId = [], title = t, startPage = s, endPage = e\<rparr>"

text \<open>Three responses to the structure prompt with their decoded arrays: two chapters
  that overlap, three chapters out of order, and one chapter that starts at page 0.\<close>

definition twoChaptersJson :: string where
  "twoChaptersJson = ''[{\"title\":\"Ch1\",\"startPage\":1,\"endPage\":5},{\"title\":\"Ch2\",\"startPage\":4,\"endPage\":10}]''"

definition twoChapters :: "Chapter list" where
  "twoChapters = [rawChapter ''Ch1'' 1 5, rawChapter ''Ch2'' 4 10]"

definition unorderedJson :: string where
  "unorderedJson = ''[{\"title\":\"B\",\"startPage\":5,\"endPage\":5},{\"title\":\"C\",\"startPage\":7,\"endPage\":8},{\"title\":\"A\",\"startPage\":1,\"endPage\":3}]''"

definition unorderedChapters :: "Chapter list" where
  "unorderedChapters = [rawChapter ''B'' 5 5, rawChapter ''C'' 7 8, rawChapter ''A'' 1 3]"

definition pageZeroJson :: string where
  "pageZeroJson = ''[{\"title\":\"Intro\",\"startPage\":0,\"endPage\":5}]''"

definition pageZeroChapters :: "Chapter list" where
  "pageZeroChapters = [rawChapter ''Intro'' 0 5]"

text \<open>A service whose every request throws, a block with all fields empty, a response to
  the question prompt holding a block of a type that is not one of the six variants, and
  a multiple choice question as the application holds it.\<close>

definition serviceThrowing :: "string \<Rightarrow> ai_state" where
  "serviceThrowing msg = \<lparr>ai = Some (\<lambda>k. Inl (Error msg)), aiInitializationError = None\<rparr>"

definition emptyBlock :: InteractiveBlock where
  "emptyBlock = \<lparr>blockId = [], type_tag = [], explanation_text = [], latex = [], question = [],
     options = [], correctAnswerIndex = 0, correctAnswer = False, questionParts = [],
     correctAnswers = []\<rparr>"

definition videoJson :: string where
  "videoJson = ''[{\"type\":\"video_embed\",\"question\":\"Watch this\"}]''"

definition videoBlocks :: "InteractiveBlock list" where
  "videoBlocks = [emptyBlock\<lparr>type_tag := ''video_embed'', question := ''Watch this''\<rparr>]"

definition capitalQuestion :: InteractiveBlock where
  "capitalQuestion = emptyBlock\<lparr>blockId := ''q1'', type_tag := ''multiple_choice_question'',
     question := ''Capital of France?'', options := [''Rome'', ''Berlin'', ''Paris''],
     correctAnswerIndex := 2\<rparr>"

text \<open>A response to the question prompt and a response to the lesson prompt, both holding
  an explanation block that carries an id of the model's own and a block of unknown type,
  with the decoded values.\<close>

definition mixedJson :: string where
  "mixedJson = ''[{\"id\":\"model-7\",\"type\":\"explanation\",\"text\":\"Paris is the capital.\"},{\"type\":\"video_embed\",\"question\":\"Watch this\"}]''"

definition mixedBlocks :: "InteractiveBlock list" where
  "mixedBlocks = [emptyBlock\<lparr>blockId := ''model-7'', type_tag := ''explanation'',
                              explanation_text := ''Paris is the capital.''\<rparr>,
                  emptyBlock\<lparr>type_tag := ''video_embed'', question := ''Watch this''\<rparr>]"

definition lessonJson :: string where
  "lessonJson = ''{\"title\":\"France\",\"content\":[{\"id\":\"model-7\",\"type\":\"explanation\",\"text\":\"Paris is the capital.\"},{\"type\":\"video_embed\",\"question\":\"Watch this\"}]}''"

definition lessonContent :: RawContent where
  "lessonContent = \<lparr>raw_title = ''France'', raw_content = Some mixedBlocks\<rparr>"

section \<open>Properties of the parser\<close>

lemma indexOf_ge: "- 1 \<le> indexOf c s"
  by (induction s) (auto simp: Let_def)

lemma indexOf_none: "indexOf c s = - 1 \<longleftrightarrow> c \<notin> set s"
proof (induction s)
  case Nil
  show ?case by simp
next
  case (Cons x xs)
  have "- 1 \<le> indexOf c xs" by (rule indexOf_ge)
  with Cons show ?case by (auto simp: Let_def)
qed

lemma set_rstrip: "set (rstrip s) \<subseteq> set s"
  unfolding rstrip_def using set_dropWhileD [of _ is_space "rev s"] by auto

lemma set_trim: "set (trim s) \<subseteq> set s"
  unfolding trim_def using set_rstrip [of "dropWhile is_space s"] set_dropWhileD [of _ is_space s] by auto

lemma set_fenceMatch:
  assumes "fenceMatch s = Some g"
  shows "set g \<subseteq> set s"
proof -
  from assms have g: "g = rstrip (dropWhile is_space (dropWhile is_word (take (length s - 6) (drop 3 s))))"
    by (simp add: fenceMatch_def split: if_splits)
  have "set g \<subseteq> set (dropWhile is_space (dropWhile is_word (take (length s - 6) (drop 3 s))))"
    unfolding g by (rule set_rstrip)
  also have "\<dots> \<subseteq> set (dropWhile is_word (take (length s - 6) (drop 3 s)))"
    using set_dropWhileD by fast
  also have "\<dots> \<subseteq> set (take (length s - 6) (drop 3 s))"
    using set_dropWhileD by fast
  also have "\<dots> \<subseteq> set (drop 3 s)"
    by (rule set_take_subset)
  also have "\<dots> \<subseteq> set s"
    by (rule set_drop_subset)
  finally show ?thesis .
qed

lemma set_unwrapFence: "set (unwrapFence s) \<subseteq> set s"
  unfolding unwrapFence_def using set_fenceMatch [of s] set_trim
  by (auto split: option.splits)

lemma parseJsonResponse_cases:
  "parseJsonResponse dec s = Inr None
     \<or> (\<exists>t v. dec t = Inr v \<and> parseJsonResponse dec s = Inr (Some v))"
  unfolding parseJsonResponse_def Let_def
  by (auto split: sum.splits)

lemma parseJsonResponse_Some:
  assumes "parseJsonResponse dec s = Inr (Some v)"
  shows "\<exists>t. dec t = Inr v"
  using assms parseJsonResponse_cases [of dec s] by auto

lemma parseJsonResponse_no_Inl: "parseJsonResponse dec s \<noteq> Inl e"
  using parseJsonResponse_cases [of dec s] by auto

lemma parseJsonResponse_no_open:
  assumes "CHR ''{'' \<notin> set s" and "CHR ''['' \<notin> set s"
  shows "parseJsonResponse dec s = Inr None"
proof -
  have "set (unwrapFence (trim s)) \<subseteq> set s"
    using set_unwrapFence [of "trim s"] set_trim [of s] by blast
  with assms have "indexOf (CHR ''['') (unwrapFence (trim s)) = - 1"
    "indexOf (CHR ''{'') (unwrapFence (trim s)) = - 1"
    by (auto simp: indexOf_none)
  then show ?thesis
    unfolding parseJsonResponse_def Let_def by simp
qed

text \<open>
  C5. \<open>parseJsonResponse\<close> never throws: for every decoder and every input string its
  result is \<open>null\<close> or a value that the decoder returned for some text; and for a string
  with neither an opening brace nor an opening bracket the result is \<open>null\<close>.
\<close>

theorem parseJsonResponse_never_throws:
  "(parseJsonResponse dec s = Inr None
      \<or> (\<exists>t v. dec t = Inr v \<and> parseJsonResponse dec s = Inr (Some v)))
   \<and> (CHR ''{'' \<notin> set s \<and> CHR ''['' \<notin> set s \<longrightarrow> parseJsonResponse dec s = Inr None)"
  using parseJsonResponse_cases [of dec s] parseJsonResponse_no_open [of s dec] by blast

theorem parseJsonResponse_never_throws_witness:
  "CHR ''{'' \<notin> set ''no data available'' \<and> CHR ''['' \<notin> set ''no data available''
   \<and> parseJsonResponse JSON_parse ''no data available'' = Inr None"
  using parseJsonResponse_never_throws [of JSON_parse "''no data available''"] by simp

section \<open>Properties of the retry wrapper\<close>

declare callApiWithRetry_loop.simps [simp del]

lemma retry_loop_calls:
  "int (calls (callApiWithRetry_loop apiCall maxRetries attempt n ds)) \<le> int n + max 0 (maxRetries - attempt)"
proof (induction apiCall maxRetries attempt n ds rule: callApiWithRetry_loop.induct)
  case (1 apiCall maxRetries attempt n ds)
  show ?case
  proof (cases "attempt < maxRetries")
    case False
    then show ?thesis by (subst callApiWithRetry_loop.simps) simp
  next
    case True
    show ?thesis
    proof (cases "apiCall n")
      case (Inr v)
      with True show ?thesis by (subst callApiWithRetry_loop.simps) simp
    next
      case (Inl e)
      show ?thesis
      proof (cases "includes_str (message e) ''500 INTERNAL'' \<and> attempt + 1 < maxRetries")
        case False
        with True Inl show ?thesis by (subst callApiWithRetry_loop.simps) auto
      next
        case retry: True
        have "int (calls (callApiWithRetry_loop apiCall maxRetries (attempt + 1) (Suc n) (ds @ [1000 * (attempt + 1)])))
                \<le> int (Suc n) + max 0 (maxRetries - (attempt + 1))"
          using "1.IH" [OF True Inl] retry by simp
        with True Inl retry show ?thesis
          by (subst callApiWithRetry_loop.simps) simp
      qed
    qed
  qed
qed

lemma retry_loop_delays:
  "sorted_wrt (<) ds \<Longrightarrow> \<forall>d \<in> set ds. d < 1000 * (attempt + 1) \<Longrightarrow>
     sorted_wrt (<) (delays (callApiWithRetry_loop apiCall maxRetries attempt n ds))"
proof (induction apiCall maxRetries attempt n ds rule: callApiWithRetry_loop.induct)
  case (1 apiCall maxRetries attempt n ds)
  show ?case
  proof (cases "attempt < maxRetries")
    case False
    with "1.prems" show ?thesis by (subst callApiWithRetry_loop.simps) simp
  next
    case True
    show ?thesis
    proof (cases "apiCall n")
      case (Inr v)
      with True "1.prems" show ?thesis by (subst callApiWithRetry_loop.simps) simp
    next
      case (Inl e)
      show ?thesis
      proof (cases "includes_str (message e) ''500 INTERNAL'' \<and> attempt + 1 < maxRetries")
        case False
        with True Inl "1.prems" show ?thesis by (subst callApiWithRetry_loop.simps) auto
      next
        case retry: True
        have s: "sorted_wrt (<) (ds @ [1000 * (attempt + 1)])"
          using "1.prems" by (simp add: sorted_wrt_append)
        have b: "\<forall>d \<in> set (ds @ [1000 * (attempt + 1)]). d < 1000 * (attempt + 1 + 1)"
          using "1.prems" by auto
        have "sorted_wrt (<) (delays (callApiWithRetry_loop apiCall maxRetries (attempt + 1) (Suc n) (ds @ [1000 * (attempt + 1)])))"
          using "1.IH" [OF True Inl _ s b] retry by simp
        with True Inl retry show ?thesis
          by (subst callApiWithRetry_loop.simps) simp
      qed
    qed
  qed
qed

lemma retry_loop_result:
  "attempt < maxRetries \<Longrightarrow>
     (case result (callApiWithRetry_loop apiCall maxRetries attempt n ds) of
        Returned v \<Rightarrow> \<exists>k. apiCall k = Inr v
      | Rethrown e \<Rightarrow> \<exists>k. apiCall k = Inl e
      | Exhausted \<Rightarrow> False)"
proof (induction apiCall maxRetries attempt n ds rule: callApiWithRetry_loop.induct)
  case (1 apiCall maxRetries attempt n ds)
  note lt = "1.prems"
  show ?case
  proof (cases "apiCall n")
    case (Inr v)
    with lt show ?thesis by (subst callApiWithRetry_loop.simps) auto
  next
    case (Inl e)
    show ?thesis
    proof (cases "includes_str (message e) ''500 INTERNAL'' \<and> attempt + 1 < maxRetries")
      case False
      with lt Inl show ?thesis by (subst callApiWithRetry_loop.simps) auto
    next
      case retry: True
      have "case result (callApiWithRetry_loop apiCall maxRetries (attempt + 1) (Suc n) (ds @ [1000 * (attempt + 1)])) of
              Returned v \<Rightarrow> \<exists>k. apiCall k = Inr v
            | Rethrown e \<Rightarrow> \<exists>k. apiCall k = Inl e
            | Exhausted \<Rightarrow> False"
        using "1.IH" [OF lt Inl] retry by simp
      with lt Inl retry show ?thesis
        by (subst callApiWithRetry_loop.simps) simp
    qed
  qed
qed

text \<open>
  C4. With a ceiling of 3, an operation that fails with the server fault signature at
  every invocation is invoked exactly 3 times (with delays 1000 and 2000 between the
  attempts, and its last error thrown again); an operation whose first invocation throws
  another error is invoked exactly once. For every operation and every ceiling the number
  of invocations is at most the ceiling (none at all for a ceiling below 1) and the
  delays are strictly increasing.
\<close>

theorem callApiWithRetry_attempts:
  assumes "\<forall>k. \<exists>e. f k = Inl e \<and> includes_str (message e) ''500 INTERNAL''"
    and "\<exists>e. g 0 = Inl e \<and> \<not> includes_str (message e) ''500 INTERNAL''"
  shows "calls (callApiWithRetry f 3) = 3 \<and> delays (callApiWithRetry f 3) = [1000, 2000]
       \<and> (\<exists>e. f 2 = Inl e \<and> result (callApiWithRetry f 3) = Rethrown e)
       \<and> calls (callApiWithRetry g 3) = 1 \<and> delays (callApiWithRetry g 3) = []
       \<and> int (calls (callApiWithRetry h maxRetries)) \<le> max 0 maxRetries
       \<and> sorted_wrt (<) (delays (callApiWithRetry h maxRetries))"
proof -
  from assms(1) obtain e0 e1 e2 where
    f: "f 0 = Inl e0" "includes_str (message e0) ''500 INTERNAL''"
       "f 1 = Inl e1" "includes_str (message e1) ''500 INTERNAL''"
       "f 2 = Inl e2" "includes_str (message e2) ''500 INTERNAL''"
    by (metis One_nat_def)
  have ff: "f (Suc 0) = Inl e1" "f (Suc (Suc 0)) = Inl e2"
    using f by (simp_all add: numeral_2_eq_2)
  have r: "callApiWithRetry f 3 = \<lparr>result = Rethrown e2, calls = 3, delays = [1000, 2000]\<rparr>"
    unfolding callApiWithRetry_def
    using f ff by (simp add: callApiWithRetry_loop.simps numeral_3_eq_3)
  from assms(2) obtain e where g: "g 0 = Inl e" "\<not> includes_str (message e) ''500 INTERNAL''"
    by blast
  have s: "callApiWithRetry g 3 = \<lparr>result = Rethrown e, calls = 1, delays = []\<rparr>"
    unfolding callApiWithRetry_def
    using g by (simp add: callApiWithRetry_loop.simps)
  have c: "int (calls (callApiWithRetry h maxRetries)) \<le> max 0 maxRetries"
    unfolding callApiWithRetry_def
    using retry_loop_calls [of h maxRetries 0 0 "[]"] by simp
  have d: "sorted_wrt (<) (delays (callApiWithRetry h maxRetries))"
    unfolding callApiWithRetry_def
    using retry_loop_delays [of "[]" 0 h maxRetries 0] by simp
  from r s c d f(5) show ?thesis by simp
qed

theorem callApiWithRetry_attempts_witness:
  "(\<forall>k::nat. \<exists>e. (Inl (Error ''got 500 INTERNAL error'') :: error + nat) = Inl e \<and> includes_str (message e) ''500 INTERNAL'')
   \<and> (\<exists>e. (Inl (Error ''403 FORBIDDEN'') :: error + nat) = Inl e \<and> \<not> includes_str (message e) ''500 INTERNAL'')
   \<and> calls (callApiWithRetry (\<lambda>k. Inl (Error ''got 500 INTERNAL error'') :: error + nat) 3) = 3
   \<and> calls (callApiWithRetry (\<lambda>k. Inl (Error ''403 FORBIDDEN'') :: error + nat) 3) = 1
   \<and> calls (callApiWithRetry (\<lambda>k. if k = 0 then Inl (Error ''500 INTERNAL'') else Inr k) 5) \<le> 5"
proof -
  have a: "\<forall>k::nat. \<exists>e. (Inl (Error ''got 500 INTERNAL error'') :: error + nat) = Inl e \<and> includes_str (message e) ''500 INTERNAL''"
    by simp
  have b: "\<exists>e. (Inl (Error ''403 FORBIDDEN'') :: error + nat) = Inl e \<and> \<not> includes_str (message e) ''500 INTERNAL''"
    by simp
  show ?thesis
    using a b callApiWithRetry_attempts [OF a b, of "\<lambda>k. if k = 0 then Inl (Error ''500 INTERNAL'') else Inr k" 5]
    by simp
qed

text \<open>
  C9. For a ceiling of at least 1, \<open>callApiWithRetry\<close> ends with the value of a
  successful invocation of the operation or with an error that the operation threw;
  the error made up behind the loop is never the outcome.
\<close>

theorem callApiWithRetry_never_exhausted:
  assumes "1 \<le> maxRetries"
  shows "(case result (callApiWithRetry apiCall maxRetries) of
            Returned v \<Rightarrow> \<exists>k. apiCall k = Inr v
          | Rethrown e \<Rightarrow> \<exists>k. apiCall k = Inl e
          | Exhausted \<Rightarrow> False)"
  unfolding callApiWithRetry_def
  using assms retry_loop_result [of 0 maxRetries apiCall 0 "[]"] by simp

theorem callApiWithRetry_never_exhausted_witness:
  "(1::int) \<le> 2
   \<and> result (callApiWithRetry (\<lambda>k. if k = 0 then Inl (Error ''500 INTERNAL'') else Inr k) 2) = Returned 1"
proof -
  have a: "(1::int) \<le> 2" by simp
  have r: "result (callApiWithRetry (\<lambda>k. if k = 0 then Inl (Error ''500 INTERNAL'') else Inr k) 2) = Returned 1"
    by (simp add: callApiWithRetry_def callApiWithRetry_loop.simps)
  show ?thesis
    using a r callApiWithRetry_never_exhausted [OF a, of "\<lambda>k. if k = 0 then Inl (Error ''500 INTERNAL'') else Inr k"]
    by simp
qed

section \<open>Properties of the chapter reconciliation\<close>

declare clampLoop.simps [simp del]

lemma clampLoop_length: "length (clampLoop i cs) = length cs"
proof (induction i cs rule: clampLoop.induct)
  case (1 i cs)
  show ?case
  proof (cases "int i < int (length cs) - 1")
    case True
    with "1.IH" show ?thesis by (subst clampLoop.simps) simp
  next
    case False
    then show ?thesis by (subst clampLoop.simps) simp
  qed
qed

text \<open>What the loop leaves at each position: from position \<open>i\<close> on, every chapter but
  the last has its end cut back when it reached into the next one.\<close>

lemma clampLoop_nth:
  "j < length cs \<Longrightarrow>
     clampLoop i cs ! j =
       (if i \<le> j \<and> j + 1 < length cs \<and> endPage (cs ! j) \<ge> startPage (cs ! (j + 1))
        then (cs ! j)\<lparr>endPage := startPage (cs ! (j + 1)) - 1\<rparr>
        else cs ! j)"
proof (induction i cs rule: clampLoop.induct)
  case (1 i cs)
  show ?case
  proof (cases "int i < int (length cs) - 1")
    case False
    with "1.prems" show ?thesis by (subst clampLoop.simps) auto
  next
    case True
    define cs' where "cs' = (if endPage (cs ! i) \<ge> startPage (cs ! (i + 1))
           then cs[i := (cs ! i)\<lparr>endPage := startPage (cs ! (i + 1)) - 1\<rparr>]
           else cs)"
    have len: "length cs' = length cs" by (simp add: cs'_def)
    have unfold: "clampLoop i cs = clampLoop (i + 1) cs'"
      using True by (subst clampLoop.simps) (simp add: cs'_def)
    have ih: "clampLoop (i + 1) cs' ! j =
       (if i + 1 \<le> j \<and> j + 1 < length cs' \<and> endPage (cs' ! j) \<ge> startPage (cs' ! (j + 1))
        then (cs' ! j)\<lparr>endPage := startPage (cs' ! (j + 1)) - 1\<rparr>
        else cs' ! j)"
      using "1.IH" [OF True] "1.prems" len unfolding cs'_def by simp
    show ?thesis
    proof (cases "i + 1 \<le> j")
      case later: True
      then have "cs' ! j = cs ! j" by (simp add: cs'_def)
      moreover have "j + 1 < length cs \<Longrightarrow> cs' ! (j + 1) = cs ! (j + 1)"
        using later by (simp add: cs'_def)
      ultimately show ?thesis
        using later ih len unfold by auto
    next
      case False
      then have le: "j \<le> i" by simp
      have "clampLoop i cs ! j = cs' ! j" using unfold ih False by simp
      then show ?thesis
        using le True "1.prems" by (cases "j = i") (auto simp: cs'_def nth_list_update)
    qed
  qed
qed

lemma clampLoop_startPage:
  assumes "j < length cs"
  shows "startPage (clampLoop i cs ! j) = startPage (cs ! j)"
  using assms by (simp add: clampLoop_nth)

lemma clampLoop_endPage:
  assumes "j + 1 < length cs"
  shows "endPage (clampLoop 0 cs ! j) < startPage (cs ! (j + 1))"
  using assms by (simp add: clampLoop_nth)


lemma chaptersWithIds_length: "length (chaptersWithIds genId totalPages raw) = length raw"
  by (simp add: chaptersWithIds_def Let_def clampLoop_length)

lemma chaptersWithIds_startPage:
  assumes "j < length raw"
  shows "startPage (chaptersWithIds genId totalPages raw ! j) = startPage (raw ! j)"
proof -
  have "j < length (clampLoop 0 raw)" using assms by (simp add: clampLoop_length)
  then show ?thesis
    using assms
    by (simp add: chaptersWithIds_def Let_def nth_enumerate_eq nth_list_update clampLoop_length
        clampLoop_startPage)
qed

lemma chaptersWithIds_endPage:
  assumes "j + 1 < length raw"
  shows "endPage (chaptersWithIds genId totalPages raw ! j) < startPage (raw ! (j + 1))"
proof -
  have "j < length (clampLoop 0 raw)" using assms by (simp add: clampLoop_length)
  then show ?thesis
    using assms clampLoop_endPage [OF assms]
    by (simp add: chaptersWithIds_def Let_def nth_enumerate_eq nth_list_update clampLoop_length)
qed

lemma chaptersWithIds_last_endPage:
  assumes "raw \<noteq> []"
  shows "endPage (last (chaptersWithIds genId totalPages raw)) = totalPages"
    and "startPage (last (chaptersWithIds genId totalPages raw)) = startPage (last raw)"
proof -
  let ?w = "chaptersWithIds genId totalPages raw"
  have ne: "?w \<noteq> []" using assms chaptersWithIds_length [of genId totalPages raw] by auto
  have l: "last ?w = ?w ! (length raw - 1)"
    using ne by (simp add: last_conv_nth chaptersWithIds_length)
  have lt: "length raw - 1 < length (clampLoop 0 raw)"
    using assms by (simp add: clampLoop_length)
  show "endPage (last ?w) = totalPages"
    unfolding l using lt assms
    by (simp add: chaptersWithIds_def Let_def nth_enumerate_eq clampLoop_length)
  show "startPage (last ?w) = startPage (last raw)"
    unfolding l using assms chaptersWithIds_startPage [of "length raw - 1" raw genId totalPages]
    by (simp add: last_conv_nth)
qed

lemma chaptersWithIds_apart:
  assumes "sorted (map startPage raw)"
  shows "sorted_wrt (\<lambda>c d. endPage c < startPage d) (chaptersWithIds genId totalPages raw)"
proof -
  let ?w = "chaptersWithIds genId totalPages raw"
  have "endPage (?w ! i) < startPage (?w ! j)" if "i < j" "j < length ?w" for i j
  proof -
    from that have j: "j < length raw" and i: "i + 1 < length raw" "i + 1 \<le> j"
      by (simp_all add: chaptersWithIds_length)
    have "endPage (?w ! i) < startPage (raw ! (i + 1))"
      using i(1) by (rule chaptersWithIds_endPage)
    also have "\<dots> \<le> startPage (raw ! j)"
      using assms i j sorted_nth_mono [of "map startPage raw" "i + 1" j] by simp
    also have "\<dots> = startPage (?w ! j)"
      using j by (simp add: chaptersWithIds_startPage)
    finally show ?thesis .
  qed
  then show ?thesis by (simp add: sorted_wrt_iff_nth_less)
qed

lemma reconcileChapters_apart:
  assumes "sorted (map startPage raw)"
  shows "sorted_wrt (\<lambda>c d. endPage c < startPage d) (reconcileChapters genId totalPages raw)"
  unfolding reconcileChapters_def
  using chaptersWithIds_apart [OF assms] by (rule sorted_wrt_filter)

lemma reconcileChapters_sorted:
  assumes "sorted (map startPage raw)"
  shows "sorted_wrt (<) (map startPage (reconcileChapters genId totalPages raw))"
proof -
  let ?r = "reconcileChapters genId totalPages raw"
  have wf: "\<forall>c \<in> set ?r. startPage c \<le> endPage c"
    by (simp add: reconcileChapters_def)
  have "sorted_wrt (\<lambda>c d. startPage c < startPage d) ?r"
  proof (rule sorted_wrt_mono_rel [OF _ reconcileChapters_apart [OF assms]])
    fix c d :: Chapter
    assume "c \<in> set ?r" "endPage c < startPage d"
    with wf show "startPage c < startPage d" by fastforce
  qed
  then show ?thesis by (simp add: sorted_wrt_map)
qed

lemma reconcileChapters_last:
  assumes "raw \<noteq> []" and "0 < startPage (last raw)" and "startPage (last raw) \<le> totalPages"
  shows "reconcileChapters genId totalPages raw \<noteq> [] \<and> endPage (last (reconcileChapters genId totalPages raw)) = totalPages"
proof -
  let ?w = "chaptersWithIds genId totalPages raw"
  let ?P = "\<lambda>c. startPage c \<le> totalPages \<and> startPage c > 0 \<and> endPage c \<ge> startPage c"
  have ne: "?w \<noteq> []" using assms(1) chaptersWithIds_length [of genId totalPages raw] by auto
  have keep: "?P (last ?w)"
    using assms by (simp add: chaptersWithIds_last_endPage)
  have "filter ?P ?w = filter ?P (butlast ?w @ [last ?w])"
    using ne by simp
  also have "\<dots> = filter ?P (butlast ?w) @ [last ?w]"
    using keep by simp
  finally have "reconcileChapters genId totalPages raw = filter ?P (butlast ?w) @ [last ?w]"
    by (simp add: reconcileChapters_def)
  then show ?thesis
    using assms(1) by (simp add: chaptersWithIds_last_endPage)
qed


lemma fullDocument_shape:
  "sorted_wrt (<) (map startPage (fullDocument genId totalPages))"
  "sorted_wrt (\<lambda>c d. endPage c < startPage d) (fullDocument genId totalPages)"
  "fullDocument genId totalPages \<noteq> []"
  "endPage (last (fullDocument genId totalPages)) = totalPages"
  by (simp_all add: fullDocument_def)

text \<open>The ways \<open>analyzeDocumentStructure\<close> can end once the client exists: with the
  whole-document chapter, or with the reconciliation of a non-empty decoded array.\<close>

lemma analyzeDocumentStructure_cases:
  assumes "getAi st = Inr currentAi"
  shows "analyzeDocumentStructure st dec genId pages = Inr (Some (fullDocument genId (int (length pages))))
       \<or> (\<exists>k response raw. currentAi k = Inr response
             \<and> parseJsonResponse dec response = Inr (Some raw) \<and> raw \<noteq> []
             \<and> analyzeDocumentStructure st dec genId pages
                 = Inr (Some (reconcileChapters genId (int (length pages)) raw)))"
proof -
  let ?n = "int (length pages)"
  let ?call = "structureApiCall currentAi dec genId ?n"
  let ?r = "result (callApiWithRetry ?call 3)"
  show ?thesis
  proof (cases ?r)
    case (Returned v)
    have "\<exists>k. ?call k = Inr v"
      using retry_loop_result [of 0 3 ?call 0 "[]"] Returned
      by (simp add: callApiWithRetry_def)
    then obtain k where k: "?call k = Inr v" ..
    have v: "v = fullDocument genId ?n
        \<or> (\<exists>response raw. currentAi k = Inr response
              \<and> parseJsonResponse dec response = Inr (Some raw) \<and> raw \<noteq> []
              \<and> v = reconcileChapters genId ?n raw)"
      using k unfolding structureApiCall_def
      by (auto split: sum.splits option.splits if_splits)
    have "analyzeDocumentStructure st dec genId pages = Inr (Some v)"
      using assms Returned by (simp add: analyzeDocumentStructure_def)
    with v show ?thesis by auto
  next
    case (Rethrown e)
    with assms show ?thesis by (simp add: analyzeDocumentStructure_def)
  next
    case Exhausted
    with assms show ?thesis by (simp add: analyzeDocumentStructure_def)
  qed
qed

text \<open>
  C1 (amended). When the start pages of every decoded chapter array are in
  non-decreasing order, the array returned by \<open>analyzeDocumentStructure\<close> is strictly
  sorted by \<open>startPage\<close> and no chapter reaches the start of the next one; when moreover
  the last chapter of every decoded array starts within the document, the returned array is
  not empty and the \<open>endPage\<close> of its last chapter is the number of pages.
\<close>

theorem analyzeDocumentStructure_ordered:
  assumes "getAi st = Inr currentAi"
    and "\<forall>k response raw. currentAi k = Inr response \<and> parseJsonResponse dec response = Inr (Some raw)
           \<longrightarrow> sorted (map startPage raw)"
  shows "\<exists>chapters. analyzeDocumentStructure st dec genId pages = Inr (Some chapters)
           \<and> sorted_wrt (<) (map startPage chapters)
           \<and> (\<forall>i. i + 1 < length chapters \<longrightarrow> endPage (chapters ! i) < startPage (chapters ! (i + 1)))
           \<and> ((\<forall>k response raw. currentAi k = Inr response \<and> parseJsonResponse dec response = Inr (Some raw)
                  \<and> raw \<noteq> []
                  \<longrightarrow> 0 < startPage (last raw) \<and> startPage (last raw) \<le> int (length pages))
                \<longrightarrow> chapters \<noteq> [] \<and> endPage (last chapters) = int (length pages))"
proof -
  let ?n = "int (length pages)"
  from analyzeDocumentStructure_cases [OF assms(1), of dec genId pages]
  consider (full) "analyzeDocumentStructure st dec genId pages = Inr (Some (fullDocument genId ?n))"
    | (rec) k response raw where "currentAi k = Inr response"
        "parseJsonResponse dec response = Inr (Some raw)" "raw \<noteq> []"
        "analyzeDocumentStructure st dec genId pages = Inr (Some (reconcileChapters genId ?n raw))"
    by blast
  then show ?thesis
  proof cases
    case full
    have "\<forall>i. i + 1 < length (fullDocument genId ?n) \<longrightarrow>
            endPage (fullDocument genId ?n ! i) < startPage (fullDocument genId ?n ! (i + 1))"
      by (simp add: fullDocument_def)
    with full fullDocument_shape [of genId ?n] show ?thesis by simp
  next
    case rec
    let ?c = "reconcileChapters genId ?n raw"
    have srt: "sorted (map startPage raw)" using assms(2) rec(1,2) by blast
    have a: "sorted_wrt (<) (map startPage ?c)"
      using srt by (rule reconcileChapters_sorted)
    have "sorted_wrt (\<lambda>c d. endPage c < startPage d) ?c"
      using srt by (rule reconcileChapters_apart)
    then have b: "\<forall>i. i + 1 < length ?c \<longrightarrow> endPage (?c ! i) < startPage (?c ! (i + 1))"
      by (simp add: sorted_wrt_iff_nth_less)
    have c: "?c \<noteq> [] \<and> endPage (last ?c) = ?n"
      if "\<forall>k response raw. currentAi k = Inr response \<and> parseJsonResponse dec response = Inr (Some raw)
                  \<and> raw \<noteq> []
                  \<longrightarrow> 0 < startPage (last raw) \<and> startPage (last raw) \<le> ?n"
    proof -
      from that rec(1,2,3) have "0 < startPage (last raw)" "startPage (last raw) \<le> ?n"
        by blast+
      with rec(3) show ?thesis by (simp add: reconcileChapters_last)
    qed
    from rec(4) a b c show ?thesis by blast
  qed
qed

theorem analyzeDocumentStructure_ordered_witness:
  "getAi (serviceReturning twoChaptersJson) = Inr (\<lambda>k. Inr twoChaptersJson)
   \<and> analyzeDocumentStructure (serviceReturning twoChaptersJson)
        (decodingAs twoChaptersJson twoChapters) numberedId tenPages
      = Inr (Some [\<lparr>chapterId = ''id-0'', title = ''Ch1'', startPage = 1, endPage = 3\<rparr>,
                   \<lparr>chapterId = ''id-1'', title = ''Ch2'', startPage = 4, endPage = 10\<rparr>])"
proof -
  have g: "getAi (serviceReturning twoChaptersJson) = Inr (\<lambda>k. Inr twoChaptersJson)"
    by (simp add: getAi_def serviceReturning_def)
  have raw: "raw = twoChapters"
    if "parseJsonResponse (decodingAs twoChaptersJson twoChapters) response = Inr (Some raw)"
    for response raw
    using parseJsonResponse_Some [OF that] by (auto simp: decodingAs_def split: if_splits)
  have h: "\<forall>k response raw. (\<lambda>k. Inr twoChaptersJson :: error + string) k = Inr response
          \<and> parseJsonResponse (decodingAs twoChaptersJson twoChapters) response = Inr (Some raw)
          \<longrightarrow> sorted (map startPage raw)"
  proof (intro allI impI)
    fix k :: nat and response raw
    assume "(\<lambda>k. Inr twoChaptersJson :: error + string) k = Inr response
          \<and> parseJsonResponse (decodingAs twoChaptersJson twoChapters) response = Inr (Some raw)"
    then have "raw = twoChapters" using raw by blast
    then show "sorted (map startPage raw)"
      by (simp add: twoChapters_def rawChapter_def)
  qed
  have l: "\<forall>k response raw. (Inr twoChaptersJson :: error + string) = Inr response
          \<and> parseJsonResponse (decodingAs twoChaptersJson twoChapters) response = Inr (Some raw)
          \<and> raw \<noteq> []
          \<longrightarrow> 0 < startPage (last raw) \<and> startPage (last raw) \<le> int (length tenPages)"
  proof (intro allI impI)
    fix k :: nat and response raw
    assume "(Inr twoChaptersJson :: error + string) = Inr response
          \<and> parseJsonResponse (decodingAs twoChaptersJson twoChapters) response = Inr (Some raw)
          \<and> raw \<noteq> []"
    then have "raw = twoChapters" using raw by blast
    then show "0 < startPage (last raw) \<and> startPage (last raw) \<le> int (length tenPages)"
      by (simp add: twoChapters_def rawChapter_def tenPages_def)
  qed
  have e: "analyzeDocumentStructure (serviceReturning twoChaptersJson)
        (decodingAs twoChaptersJson twoChapters) numberedId tenPages
      = Inr (Some [\<lparr>chapterId = ''id-0'', title = ''Ch1'', startPage = 1, endPage = 3\<rparr>,
                   \<lparr>chapterId = ''id-1'', title = ''Ch2'', startPage = 4, endPage = 10\<rparr>])"
    by code_simp
  from analyzeDocumentStructure_ordered [OF g h, of numberedId tenPages] l g e
  show ?thesis by simp
qed

text \<open>
  C1 as stated fails: for a document of ten pages and a decoded array whose chapters
  start at pages 5, 7 and 1, the returned array starts at pages 5 and 1; it is not sorted
  and its first chapter lies inside the second.
\<close>

theorem analyzeDocumentStructure_unsorted:
  "analyzeDocumentStructure (serviceReturning unorderedJson)
     (decodingAs unorderedJson unorderedChapters) numberedId tenPages
   = Inr (Some [\<lparr>chapterId = ''id-0'', title = ''B'', startPage = 5, endPage = 5\<rparr>,
                \<lparr>chapterId = ''id-2'', title = ''A'', startPage = 1, endPage = 10\<rparr>])
   \<and> \<not> sorted [5, 1 :: int]"
  by code_simp

text \<open>The fallback itself works: when no request yields a non-empty decoded array (the
  request throws, the response does not parse, or the array is empty), the result is the
  single whole-document chapter from page 1 to the number of pages.\<close>

lemma analyzeDocumentStructure_fallback:
  assumes "getAi st = Inr currentAi"
    and "\<forall>k response raw. currentAi k = Inr response \<and> parseJsonResponse dec response = Inr (Some raw)
           \<longrightarrow> raw = []"
  shows "analyzeDocumentStructure st dec genId pages
       = Inr (Some [\<lparr>chapterId = genId 0, title = ''Full Document'', startPage = 1,
                     endPage = int (length pages)\<rparr>])"
  using analyzeDocumentStructure_cases [OF assms(1), of dec genId pages] assms(2)
  by (auto simp: fullDocument_def)

text \<open>
  C6 fails on the code: for a document of ten pages and a response whose only chapter
  starts at page 0, the final filter removes that chapter and the function returns the
  empty array, not the whole-document chapter.
\<close>

theorem analyzeDocumentStructure_empty_result:
  "analyzeDocumentStructure (serviceReturning pageZeroJson)
     (decodingAs pageZeroJson pageZeroChapters) numberedId tenPages
   = Inr (Some [])"
  by code_simp

text \<open>
  C10. Once the client exists (\<open>getAi\<close> does not throw), \<open>analyzeDocumentStructure\<close>
  returns a chapter array on every path, never \<open>null\<close> and never a thrown error.
\<close>

theorem analyzeDocumentStructure_never_null:
  assumes "getAi st = Inr currentAi"
  shows "\<exists>chapters. analyzeDocumentStructure st dec genId pages = Inr (Some chapters)"
  using analyzeDocumentStructure_cases [OF assms, of dec genId pages] by blast


theorem analyzeDocumentStructure_never_null_witness:
  "getAi (serviceReturning ''I cannot help with that.'') = Inr (\<lambda>k. Inr ''I cannot help with that.'')
   \<and> analyzeDocumentStructure (serviceReturning ''I cannot help with that.'')
        (decodingAs twoChaptersJson twoChapters) numberedId tenPages
      = Inr (Some [\<lparr>chapterId = ''id-0'', title = ''Full Document'', startPage = 1, endPage = 10\<rparr>])"
proof -
  have g: "getAi (serviceReturning ''I cannot help with that.'') = Inr (\<lambda>k. Inr ''I cannot help with that.'')"
    by (simp add: getAi_def serviceReturning_def)
  have e: "analyzeDocumentStructure (serviceReturning ''I cannot help with that.'')
        (decodingAs twoChaptersJson twoChapters) numberedId tenPages
      = Inr (Some [\<lparr>chapterId = ''id-0'', title = ''Full Document'', startPage = 1, endPage = 10\<rparr>])"
    by code_simp
  from analyzeDocumentStructure_never_null [OF g, of "decodingAs twoChaptersJson twoChapters" numberedId tenPages] g e
  show ?thesis by simp
qed

section \<open>Properties of the block functions\<close>

declare initialQuestions_loop.simps [simp del]

lemma assignIdsToBlocks_length: "length (assignIdsToBlocks genId raw) = length raw"
  by (simp add: assignIdsToBlocks_def)

lemma assignIdsToBlocks_nth:
  assumes "i < length raw"
  shows "assignIdsToBlocks genId raw ! i = (raw ! i)\<lparr>blockId := genId i\<rparr>"
  using assms by (simp add: assignIdsToBlocks_def nth_enumerate_eq)

lemma assignIdsToBlocks_type_tag:
  "map type_tag (assignIdsToBlocks genId raw) = map type_tag raw"
  by (rule nth_equalityI) (simp_all add: assignIdsToBlocks_length assignIdsToBlocks_nth)

text \<open>A value returned by \<open>callApiWithRetry\<close> is the value of the last invocation made.\<close>

lemma retry_loop_returned:
  assumes "result (callApiWithRetry_loop apiCall maxRetries attempt n ds) = Returned v"
  shows "\<exists>k. calls (callApiWithRetry_loop apiCall maxRetries attempt n ds) = Suc k
           \<and> n \<le> k \<and> apiCall k = Inr v"
  using assms
proof (induction apiCall maxRetries attempt n ds rule: callApiWithRetry_loop.induct)
  case (1 apiCall maxRetries attempt n ds)
  show ?case
  proof (cases "attempt < maxRetries")
    case False
    with "1.prems" show ?thesis by (subst (asm) callApiWithRetry_loop.simps) simp
  next
    case True
    show ?thesis
    proof (cases "apiCall n")
      case (Inr w)
      with True "1.prems" have "w = v" by (subst (asm) callApiWithRetry_loop.simps) simp
      with True Inr show ?thesis by (subst callApiWithRetry_loop.simps) simp
    next
      case (Inl e)
      show ?thesis
      proof (cases "includes_str (message e) ''500 INTERNAL'' \<and> attempt + 1 < maxRetries")
        case False
        with True Inl "1.prems" show ?thesis by (subst (asm) callApiWithRetry_loop.simps) auto
      next
        case retry: True
        let ?next = "callApiWithRetry_loop apiCall maxRetries (attempt + 1) (Suc n) (ds @ [1000 * (attempt + 1)])"
        have unfold: "callApiWithRetry_loop apiCall maxRetries attempt n ds = ?next"
          using True Inl retry by (subst callApiWithRetry_loop.simps) simp
        with "1.prems" have "result ?next = Returned v" by simp
        with "1.IH" [OF True Inl] retry
        obtain k where "calls ?next = Suc k" "Suc n \<le> k" "apiCall k = Inr v" by auto
        with unfold show ?thesis by auto
      qed
    qed
  qed
qed

text \<open>Blocks returned by the question loop come from the last request made.\<close>

lemma initialQuestions_loop_last:
  assumes "result (initialQuestions_loop currentAi dec genId attempt n ds) = Some blocks"
  shows "\<exists>k response rawBlocks.
           calls (initialQuestions_loop currentAi dec genId attempt n ds) = Suc k \<and> n \<le> k
           \<and> currentAi k = Inr response
           \<and> parseJsonResponse dec response = Inr (Some rawBlocks)
           \<and> blocks = assignIdsToBlocks genId rawBlocks"
  using assms
proof (induction currentAi dec genId attempt n ds rule: initialQuestions_loop.induct)
  case (1 currentAi dec genId attempt n ds)
  let ?attempted = "case currentAi n of
                 Inl e \<Rightarrow> None
               | Inr response \<Rightarrow>
                   (case parseJsonResponse dec response of
                      Inl e \<Rightarrow> None
                    | Inr None \<Rightarrow> None
                    | Inr (Some rawBlocks) \<Rightarrow> Some (assignIdsToBlocks genId rawBlocks))"
  show ?case
  proof (cases "attempt < 3")
    case False
    with "1.prems" show ?thesis by (subst (asm) initialQuestions_loop.simps) simp
  next
    case True
    show ?thesis
    proof (cases ?attempted)
      case (Some bs)
      then have run: "initialQuestions_loop currentAi dec genId attempt n ds
          = \<lparr>result = Some bs, calls = Suc n, delays = ds\<rparr>"
        using True by (subst initialQuestions_loop.simps) simp
      with "1.prems" have "bs = blocks" by simp
      with Some obtain response rawBlocks where
        "currentAi n = Inr response" "parseJsonResponse dec response = Inr (Some rawBlocks)"
        "blocks = assignIdsToBlocks genId rawBlocks"
        by (auto split: sum.splits option.splits)
      with run show ?thesis by auto
    next
      case None
      let ?next = "initialQuestions_loop currentAi dec genId (attempt + 1) (Suc n)
                  (if attempt < 2 then ds @ [500 * (attempt + 1)] else ds)"
      have unfold: "initialQuestions_loop currentAi dec genId attempt n ds = ?next"
        using True None by (subst initialQuestions_loop.simps) simp
      with "1.prems" have "result ?next = Some blocks" by simp
      from "1.IH" [OF True None this]
      obtain k response rawBlocks where
        "calls ?next = Suc k" "Suc n \<le> k" "currentAi k = Inr response"
        "parseJsonResponse dec response = Inr (Some rawBlocks)"
        "blocks = assignIdsToBlocks genId rawBlocks"
        by blast
      with unfold show ?thesis by auto
    qed
  qed
qed

text \<open>
  C3 (amended). \<open>assignIdsToBlocks\<close> drops no block: it returns as many blocks as it
  was given, and the block at each position is the decoded block at that position with
  only its id replaced by a new one, so every type tag is kept, known or not. When
  \<open>generateInitialQuestions\<close> returns blocks, they are \<open>assignIdsToBlocks\<close> of the array
  decoded from the response to the last request it made; when \<open>generateInteractiveLesson\<close>
  returns a lesson, its title is the decoded title and its content is
  \<open>assignIdsToBlocks\<close> of the decoded content of the response to the last request made.
\<close>

theorem assignIdsToBlocks_keeps_every_block:
  assumes "getAi st = Inr currentAi" and "getAi st' = Inr currentAi'"
  shows "length (assignIdsToBlocks genId raw) = length raw
       \<and> (\<forall>i < length raw. assignIdsToBlocks genId raw ! i = (raw ! i)\<lparr>blockId := genId i\<rparr>)
       \<and> map type_tag (assignIdsToBlocks genId raw) = map type_tag raw
       \<and> (\<forall>r blocks. generateInitialQuestions st dec genId = Inr r \<and> result r = Some blocks
            \<longrightarrow> (\<exists>k response rawBlocks. calls r = Suc k \<and> currentAi k = Inr response
                   \<and> parseJsonResponse dec response = Inr (Some rawBlocks)
                   \<and> blocks = assignIdsToBlocks genId rawBlocks))
       \<and> (\<forall>lesson. generateInteractiveLesson st' dec' genId = Inr (Some lesson)
            \<longrightarrow> (\<exists>k response initialContent rawBlocks.
                   calls (callApiWithRetry (lessonApiCall currentAi' dec' genId) 3) = Suc k
                   \<and> currentAi' k = Inr response
                   \<and> parseJsonResponse dec' response = Inr (Some initialContent)
                   \<and> raw_content initialContent = Some rawBlocks
                   \<and> lessonTitle lesson = raw_title initialContent
                   \<and> content lesson = assignIdsToBlocks genId rawBlocks))"
proof (intro conjI allI impI)
  show "length (assignIdsToBlocks genId raw) = length raw"
    by (rule assignIdsToBlocks_length)
next
  fix i assume "i < length raw"
  then show "assignIdsToBlocks genId raw ! i = (raw ! i)\<lparr>blockId := genId i\<rparr>"
    by (rule assignIdsToBlocks_nth)
next
  show "map type_tag (assignIdsToBlocks genId raw) = map type_tag raw"
    by (rule assignIdsToBlocks_type_tag)
next
  fix r blocks
  assume a: "generateInitialQuestions st dec genId = Inr r \<and> result r = Some blocks"
  with assms(1) have r: "r = initialQuestions_loop currentAi dec genId 0 0 []"
    by (auto simp: generateInitialQuestions_def)
  with a have "result (initialQuestions_loop currentAi dec genId 0 0 []) = Some blocks" by simp
  from initialQuestions_loop_last [OF this] r
  show "\<exists>k response rawBlocks. calls r = Suc k \<and> currentAi k = Inr response
                   \<and> parseJsonResponse dec response = Inr (Some rawBlocks)
                   \<and> blocks = assignIdsToBlocks genId rawBlocks"
    by blast
next
  fix lesson
  let ?call = "lessonApiCall currentAi' dec' genId"
  assume a: "generateInteractiveLesson st' dec' genId = Inr (Some lesson)"
  with assms(2) have "result (callApiWithRetry ?call 3) = Returned (Some lesson)"
    by (cases "result (callApiWithRetry ?call 3)") (auto simp: generateInteractiveLesson_def)
  then have "\<exists>k. calls (callApiWithRetry ?call 3) = Suc k \<and> ?call k = Inr (Some lesson)"
    using retry_loop_returned [of ?call 3 0 0 "[]" "Some lesson"]
    by (auto simp: callApiWithRetry_def)
  then obtain k where k: "calls (callApiWithRetry ?call 3) = Suc k" "?call k = Inr (Some lesson)"
    by blast
  from k(2) obtain response initialContent rawBlocks where
    "currentAi' k = Inr response" "parseJsonResponse dec' response = Inr (Some initialContent)"
    "raw_content initialContent = Some rawBlocks"
    "lessonTitle lesson = raw_title initialContent"
    "content lesson = assignIdsToBlocks genId rawBlocks"
    unfolding lessonApiCall_def
    by (auto split: sum.splits option.splits)
  with k(1)
  show "\<exists>k response initialContent rawBlocks.
                   calls (callApiWithRetry (lessonApiCall currentAi' dec' genId) 3) = Suc k
                   \<and> currentAi' k = Inr response
                   \<and> parseJsonResponse dec' response = Inr (Some initialContent)
                   \<and> raw_content initialContent = Some rawBlocks
                   \<and> lessonTitle lesson = raw_title initialContent
                   \<and> content lesson = assignIdsToBlocks genId rawBlocks"
    by blast
qed

theorem assignIdsToBlocks_keeps_every_block_witness:
  "getAi (serviceReturning mixedJson) = Inr (\<lambda>k. Inr mixedJson)
   \<and> getAi (serviceReturning lessonJson) = Inr (\<lambda>k. Inr lessonJson)
   \<and> assignIdsToBlocks numberedId mixedBlocks
      = [emptyBlock\<lparr>blockId := ''id-0'', type_tag := ''explanation'',
                     explanation_text := ''Paris is the capital.''\<rparr>,
         emptyBlock\<lparr>blockId := ''id-1'', type_tag := ''video_embed'', question := ''Watch this''\<rparr>]
   \<and> generateInitialQuestions (serviceReturning mixedJson) (decodingAs mixedJson mixedBlocks) numberedId
      = Inr \<lparr>result = Some [emptyBlock\<lparr>blockId := ''id-0'', type_tag := ''explanation'',
                                         explanation_text := ''Paris is the capital.''\<rparr>,
                             emptyBlock\<lparr>blockId := ''id-1'', type_tag := ''video_embed'',
                                         question := ''Watch this''\<rparr>],
            calls = 1, delays = []\<rparr>
   \<and> generateInteractiveLesson (serviceReturning lessonJson) (decodingAs lessonJson lessonContent) numberedId
      = Inr (Some \<lparr>contentId = ''id-2'', lessonTitle = ''France'',
                   content = [emptyBlock\<lparr>blockId := ''id-0'', type_tag := ''explanation'',
                                          explanation_text := ''Paris is the capital.''\<rparr>,
                              emptyBlock\<lparr>blockId := ''id-1'', type_tag := ''video_embed'',
                                          question := ''Watch this''\<rparr>]\<rparr>)"
proof -
  have g: "getAi (serviceReturning mixedJson) = Inr (\<lambda>k. Inr mixedJson)"
    by (simp add: getAi_def serviceReturning_def)
  have g': "getAi (serviceReturning lessonJson) = Inr (\<lambda>k. Inr lessonJson)"
    by (simp add: getAi_def serviceReturning_def)
  have a: "assignIdsToBlocks numberedId mixedBlocks
      = [emptyBlock\<lparr>blockId := ''id-0'', type_tag := ''explanation'',
                     explanation_text := ''Paris is the capital.''\<rparr>,
         emptyBlock\<lparr>blockId := ''id-1'', type_tag := ''video_embed'', question := ''Watch this''\<rparr>]"
    by code_simp
  have q: "generateInitialQuestions (serviceReturning mixedJson) (decodingAs mixedJson mixedBlocks) numberedId
      = Inr \<lparr>result = Some [emptyBlock\<lparr>blockId := ''id-0'', type_tag := ''explanation'',
                                         explanation_text := ''Paris is the capital.''\<rparr>,
                             emptyBlock\<lparr>blockId := ''id-1'', type_tag := ''video_embed'',
                                         question := ''Watch this''\<rparr>],
            calls = 1, delays = []\<rparr>"
    by code_simp
  have l: "generateInteractiveLesson (serviceReturning lessonJson) (decodingAs lessonJson lessonContent) numberedId
      = Inr (Some \<lparr>contentId = ''id-2'', lessonTitle = ''France'',
                   content = [emptyBlock\<lparr>blockId := ''id-0'', type_tag := ''explanation'',
                                          explanation_text := ''Paris is the capital.''\<rparr>,
                              emptyBlock\<lparr>blockId := ''id-1'', type_tag := ''video_embed'',
                                          question := ''Watch this''\<rparr>]\<rparr>)"
    by code_simp
  from assignIdsToBlocks_keeps_every_block [OF g g', of numberedId mixedBlocks
      "decodingAs mixedJson mixedBlocks" "decodingAs lessonJson lessonContent"] g g' a q l
  show ?thesis by simp
qed

text \<open>
  C3 as stated fails: when the decoded array holds a block of type \<open>video_embed\<close>,
  \<open>generateInitialQuestions\<close> returns that block, with a new id and its unknown type.
\<close>

theorem generateInitialQuestions_unknown_type:
  "generateInitialQuestions (serviceReturning videoJson) (decodingAs videoJson videoBlocks) numberedId
   = Inr \<lparr>result = Some [emptyBlock\<lparr>blockId := ''id-0'', type_tag := ''video_embed'',
                                       question := ''Watch this''\<rparr>],
          calls = 1, delays = []\<rparr>
   \<and> ''video_embed'' \<notin> set knownTypes"
  by code_simp

text \<open>
  C7. When each of the first three requests of \<open>generateInitialQuestions\<close> returns a
  response that \<open>parseJsonResponse\<close> cannot parse, the function returns \<open>null\<close> (it does
  not throw) after exactly 3 requests, having waited 500 and then 1000 milliseconds
  between them.
\<close>

theorem generateInitialQuestions_three_failures:
  assumes "getAi st = Inr currentAi"
    and "\<forall>k < 3. \<exists>response. currentAi k = Inr response \<and> parseJsonResponse dec response = Inr None"
  shows "generateInitialQuestions st dec genId = Inr \<lparr>result = None, calls = 3, delays = [500, 1000]\<rparr>"
proof -
  from assms(2) obtain r0 r1 r2 where
    r: "currentAi 0 = Inr r0" "parseJsonResponse dec r0 = Inr None"
       "currentAi (Suc 0) = Inr r1" "parseJsonResponse dec r1 = Inr None"
       "currentAi (Suc (Suc 0)) = Inr r2" "parseJsonResponse dec r2 = Inr None"
    by (metis numeral_3_eq_3 lessI less_SucI zero_less_Suc)
  have "initialQuestions_loop currentAi dec genId 0 0 [] = \<lparr>result = None, calls = 3, delays = [500, 1000]\<rparr>"
    using r by (simp add: initialQuestions_loop.simps numeral_3_eq_3)
  with assms(1) show ?thesis by (simp add: generateInitialQuestions_def)
qed

theorem generateInitialQuestions_three_failures_witness:
  "getAi (serviceReturning ''There are no questions today.'') = Inr (\<lambda>k. Inr ''There are no questions today.'')
   \<and> parseJsonResponse (decodingAs videoJson videoBlocks) ''There are no questions today.'' = Inr None
   \<and> generateInitialQuestions (serviceReturning ''There are no questions today.'')
        (decodingAs videoJson videoBlocks) numberedId
      = Inr \<lparr>result = None, calls = 3, delays = [500, 1000]\<rparr>"
proof -
  have g: "getAi (serviceReturning ''There are no questions today.'') = Inr (\<lambda>k. Inr ''There are no questions today.'')"
    by (simp add: getAi_def serviceReturning_def)
  have p: "parseJsonResponse (decodingAs videoJson videoBlocks) ''There are no questions today.'' = Inr None"
    by (rule parseJsonResponse_no_open) simp_all
  have h: "\<forall>k < (3::nat). \<exists>response. (\<lambda>k. Inr ''There are no questions today.'' :: error + string) k = Inr response
         \<and> parseJsonResponse (decodingAs videoJson videoBlocks) response = Inr None"
    using p by simp
  from generateInitialQuestions_three_failures [OF g h, of numberedId] g p
  show ?thesis by simp
qed


section \<open>Properties of the grading\<close>

lemma qaPair_dropped:
  assumes "find (\<lambda>q. blockId q = ua_questionId ua) allQuestions = None
         \<or> (\<exists>q. find (\<lambda>q. blockId q = ua_questionId ua) allQuestions = Some q
                \<and> \<not> endsWith (type_tag q) ''_question'')"
  shows "qaPair allQuestions ua = None"
  using assms by (auto simp: qaPair_def)

lemma qaPair_Some:
  assumes "qaPair allQuestions ua = Some p"
  shows "\<exists>q. find (\<lambda>q. blockId q = ua_questionId ua) allQuestions = Some q
           \<and> endsWith (type_tag q) ''_question'' \<and> qa_questionId p = ua_questionId ua"
proof (cases "find (\<lambda>q. blockId q = ua_questionId ua) allQuestions")
  case None
  with assms show ?thesis by (simp add: qaPair_def)
next
  case (Some q)
  show ?thesis
  proof (cases "endsWith (type_tag q) ''_question''")
    case False
    with Some assms show ?thesis by (simp add: qaPair_def)
  next
    case True
    have "qa_questionId p = ua_questionId ua"
      using assms Some True unfolding qaPair_def
      by (auto simp: Let_def split: prod.splits option.splits if_splits)
    with Some True show ?thesis by simp
  qed
qed

lemma set_qaPairsForAI:
  "set (qaPairsForAI allQuestions userAnswers)
     = {p. \<exists>ua \<in> set userAnswers. qaPair allQuestions ua = Some p}"
  unfolding qaPairsForAI_def
  by (induction userAnswers) (auto split: option.splits)

lemma feedback_all_throw:
  assumes "\<forall>k. \<exists>e. currentAi k = Inl e"
  shows "\<exists>e. outcome_value (result (callApiWithRetry (feedbackApiCall currentAi dec pairs) 3)) = Inl e"
proof -
  let ?call = "feedbackApiCall currentAi dec pairs"
  have never: "?call k \<noteq> Inr v" for k v
    using assms unfolding feedbackApiCall_def by (metis old.sum.simps(5) sum.distinct(1))
  show ?thesis
  proof (cases "result (callApiWithRetry ?call 3)")
    case (Returned v)
    then have "\<exists>k. ?call k = Inr v"
      using retry_loop_result [of 0 3 ?call 0 "[]"] by (simp add: callApiWithRetry_def)
    with never show ?thesis by blast
  qed simp_all
qed

text \<open>
  C8. In \<open>getFeedbackOnAnswers\<close> an answer whose \<open>questionId\<close> matches no block, or
  matches a block whose type does not end in \<open>_question\<close>, yields no pair, and every pair
  sent for grading comes from an answer that matches such a question block. When no
  answer yields a pair the function returns the empty list without any request to the
  remote service. When every request throws, the function returns \<open>null\<close>.
\<close>

theorem getFeedbackOnAnswers_drops_and_fails:
  assumes "getAi st = Inr currentAi"
  shows "(find (\<lambda>q. blockId q = ua_questionId ua) allQuestions = None
            \<or> (\<exists>q. find (\<lambda>q. blockId q = ua_questionId ua) allQuestions = Some q
                   \<and> \<not> endsWith (type_tag q) ''_question'')
          \<longrightarrow> qaPair allQuestions ua = None)
       \<and> (\<forall>p \<in> set (qaPairsForAI allQuestions userAnswers).
             \<exists>a \<in> set userAnswers. \<exists>q.
               find (\<lambda>q. blockId q = ua_questionId a) allQuestions = Some q
               \<and> endsWith (type_tag q) ''_question'' \<and> qa_questionId p = ua_questionId a)
       \<and> ((\<forall>a \<in> set userAnswers. qaPair allQuestions a = None)
            \<longrightarrow> getFeedbackOnAnswers st dec userAnswers allQuestions
                  = Inr \<lparr>result = Some [], calls = 0, delays = []\<rparr>)
       \<and> ((\<forall>k. \<exists>e. currentAi k = Inl e) \<and> qaPairsForAI otherQuestions otherAnswers \<noteq> []
            \<longrightarrow> (\<exists>r. getFeedbackOnAnswers st dec otherAnswers otherQuestions = Inr r \<and> result r = None))"
proof (intro conjI)
  show "find (\<lambda>q. blockId q = ua_questionId ua) allQuestions = None
            \<or> (\<exists>q. find (\<lambda>q. blockId q = ua_questionId ua) allQuestions = Some q
                   \<and> \<not> endsWith (type_tag q) ''_question'')
          \<longrightarrow> qaPair allQuestions ua = None"
    using qaPair_dropped by blast
next
  show "\<forall>p \<in> set (qaPairsForAI allQuestions userAnswers).
             \<exists>a \<in> set userAnswers. \<exists>q.
               find (\<lambda>q. blockId q = ua_questionId a) allQuestions = Some q
               \<and> endsWith (type_tag q) ''_question'' \<and> qa_questionId p = ua_questionId a"
    using qaPair_Some by (fastforce simp: set_qaPairsForAI)
next
  show "(\<forall>a \<in> set userAnswers. qaPair allQuestions a = None)
            \<longrightarrow> getFeedbackOnAnswers st dec userAnswers allQuestions
                  = Inr \<lparr>result = Some [], calls = 0, delays = []\<rparr>"
  proof
    assume "\<forall>a \<in> set userAnswers. qaPair allQuestions a = None"
    then have "set (qaPairsForAI allQuestions userAnswers) = {}"
      by (simp add: set_qaPairsForAI)
    then have "qaPairsForAI allQuestions userAnswers = []" by simp
    with assms show "getFeedbackOnAnswers st dec userAnswers allQuestions
                  = Inr \<lparr>result = Some [], calls = 0, delays = []\<rparr>"
      by (simp add: getFeedbackOnAnswers_def)
  qed
next
  show "(\<forall>k. \<exists>e. currentAi k = Inl e) \<and> qaPairsForAI otherQuestions otherAnswers \<noteq> []
            \<longrightarrow> (\<exists>r. getFeedbackOnAnswers st dec otherAnswers otherQuestions = Inr r \<and> result r = None)"
  proof
    assume a: "(\<forall>k. \<exists>e. currentAi k = Inl e) \<and> qaPairsForAI otherQuestions otherAnswers \<noteq> []"
    then obtain e where
      "outcome_value (result (callApiWithRetry
         (feedbackApiCall currentAi dec (qaPairsForAI otherQuestions otherAnswers)) 3)) = Inl e"
      using feedback_all_throw by blast
    with a assms
    show "\<exists>r. getFeedbackOnAnswers st dec otherAnswers otherQuestions = Inr r \<and> result r = None"
      by (simp add: getFeedbackOnAnswers_def Let_def)
  qed
qed

theorem getFeedbackOnAnswers_drops_and_fails_witness:
  "getAi (serviceThrowing ''503 UNAVAILABLE'') = Inr (\<lambda>k. Inl (Error ''503 UNAVAILABLE''))
   \<and> find (\<lambda>q. blockId q = ua_questionId \<lparr>ua_questionId = ''q9'', ua_answer = ANumber 1\<rparr>) [capitalQuestion] = None
   \<and> qaPair [capitalQuestion] \<lparr>ua_questionId = ''q9'', ua_answer = ANumber 1\<rparr> = None
   \<and> getFeedbackOnAnswers (serviceThrowing ''503 UNAVAILABLE'') (decodingAs ''[]'' [])
        [\<lparr>ua_questionId = ''q9'', ua_answer = ANumber 1\<rparr>] [capitalQuestion]
      = Inr \<lparr>result = Some [], calls = 0, delays = []\<rparr>
   \<and> (\<forall>k::nat. \<exists>e. (Inl (Error ''503 UNAVAILABLE'') :: error + string) = Inl e)
   \<and> qaPairsForAI [capitalQuestion] [\<lparr>ua_questionId = ''q1'', ua_answer = ANumber 1\<rparr>]
      = [\<lparr>qa_questionId = ''q1'', qa_question = ''Capital of France?'', qa_userAnswer = ''Berlin'',
          qa_correctAnswer = Some ''Paris''\<rparr>]
   \<and> getFeedbackOnAnswers (serviceThrowing ''503 UNAVAILABLE'') (decodingAs ''[]'' [])
        [\<lparr>ua_questionId = ''q1'', ua_answer = ANumber 1\<rparr>] [capitalQuestion]
      = Inr \<lparr>result = None, calls = 1, delays = []\<rparr>"
proof -
  have g: "getAi (serviceThrowing ''503 UNAVAILABLE'') = Inr (\<lambda>k. Inl (Error ''503 UNAVAILABLE''))"
    by (simp add: getAi_def serviceThrowing_def)
  have f: "find (\<lambda>q. blockId q = ua_questionId \<lparr>ua_questionId = ''q9'', ua_answer = ANumber 1\<rparr>) [capitalQuestion] = None"
    by (simp add: capitalQuestion_def emptyBlock_def)
  have p: "qaPairsForAI [capitalQuestion] [\<lparr>ua_questionId = ''q1'', ua_answer = ANumber 1\<rparr>]
      = [\<lparr>qa_questionId = ''q1'', qa_question = ''Capital of France?'', qa_userAnswer = ''Berlin'',
          qa_correctAnswer = Some ''Paris''\<rparr>]"
    by code_simp
  have n: "getFeedbackOnAnswers (serviceThrowing ''503 UNAVAILABLE'') (decodingAs ''[]'' [])
        [\<lparr>ua_questionId = ''q1'', ua_answer = ANumber 1\<rparr>] [capitalQuestion]
      = Inr \<lparr>result = None, calls = 1, delays = []\<rparr>"
    by code_simp
  from getFeedbackOnAnswers_drops_and_fails [OF g,
      of "\<lparr>ua_questionId = ''q9'', ua_answer = ANumber 1\<rparr>" "[capitalQuestion]"
         "[\<lparr>ua_questionId = ''q9'', ua_answer = ANumber 1\<rparr>]" "decodingAs ''[]'' []"
         "[capitalQuestion]" "[\<lparr>ua_questionId = ''q1'', ua_answer = ANumber 1\<rparr>]"]
    g f p n
  show ?thesis by simp
qed

section \<open>The parser on wrapped JSON\<close>





















end
